theory Spec2Isabelle
  imports Main "HOL-Library.Word" "HOL-Library.Signed_Division" "HOL-Library.Monad_Syntax"
begin

unbundle bit_operations_syntax

section \<open>Encrypted overlay networks: the IPsec control plane of the overlay driver\<close>

text \<open>
  The development embeds the overlay driver's encryption code (package \<open>overlay\<close>):
  \<open>setupEncryption\<close>, \<open>removeEncryption\<close>, \<open>updateKeys\<close>, \<open>updateNodeKey\<close>,
  \<open>programSA\<close>, \<open>programSP\<close>, \<open>buildSPI\<close> and \<open>maxMTU\<close>.

  Conventions of the embedding:
  \<^item> a Go function that can panic returns an \<open>option\<close>: \<open>None\<close> is the runtime panic
    (index or slice bounds out of range, nil dereference), \<open>Some\<close> a normal return;
  \<^item> a Go \<open>error\<close> result is a value inside the \<open>Some\<close>: \<open>None\<close> for \<open>nil\<close>;
  \<^item> a slice is a list, \<open>nil\<close> and the empty slice being the same list \<open>[]\<close>;
  \<^item> Go's \<open>int\<close> is \<open>int\<close> for indices, lengths and MTUs (all far from the 64-bit
    bounds) and a 64-bit word for the reference count, which is incremented without
    any bound check;
  \<^item> the kernel behind the netlink handle is not part of the driver: it is a parameter,
    a function that answers every netlink call with an optional errno and a new kernel
    state. The calls the driver issues are recorded in order, each with its answer.
\<close>

subsection \<open>Data model\<close>

type_synonym byte = "8 word"

text \<open>\<open>net.IP\<close> is a byte slice; a \<open>netip.Addr\<close> is represented by its \<open>AsSlice()\<close>.\<close>

type_synonym ip = "byte list"

text \<open>\<open>type key struct { value []byte; tag uint32 }\<close>\<close>

record key =
  val :: "byte list"
  tag :: "32 word"

text \<open>\<open>type spi struct { forward int; reverse int }\<close>\<close>

record spi =
  forward_spi :: int
  reverse_spi :: int

text \<open>\<open>type encrNode struct { spi []spi; count int }\<close>\<close>

record encrNode =
  spi :: "spi list"
  count :: "64 word"

text \<open>\<open>type encrMap map[netip.Addr]encrNode\<close>\<close>

type_synonym encrMap = "ip \<rightharpoonup> encrNode"

text \<open>The fields of \<open>driver\<close> that the encryption code reads and writes.\<close>

record driver =
  keys :: "key list"
  secMap :: encrMap
  bindAddress :: ip
  advertiseAddress :: ip

text \<open>The fields of \<open>network\<close> that \<open>maxMTU\<close> reads.\<close>

record network =
  mtu :: int
  secure :: bool

definition mark :: int where
  "mark = 0xD0C4E3"

definition pktExpansion :: int where
  "pktExpansion = 26"

text \<open>\<open>const ( forward = iota + 1; reverse; bidir )\<close>\<close>

definition forward :: int where
  "forward = 1"

definition reverse :: int where
  "reverse = 2"

definition bidir :: int where
  "bidir = 3"

subsection \<open>MTU accounting\<close>

text \<open>
  \<open>maxMTU\<close>. The constant \<open>vxlanEncap\<close> is declared in another file of the package and
  is a parameter here. Go's \<open>%\<close> truncates towards zero: it is \<open>smod\<close>.
\<close>

definition maxMTU :: "int \<Rightarrow> network \<Rightarrow> int" where
  "maxMTU vxlanEncap n =
    (let m = (if mtu n \<noteq> 0 then mtu n else 1500);
         m = m - vxlanEncap
     in if secure n
        then (let m = m - pktExpansion in m - (m smod 4))
        else m)"

subsection \<open>Slices\<close>

text \<open>
  \<open>xs[i]\<close> for a Go \<open>int\<close> index: a runtime panic outside \<open>0 \<le> i < len(xs)\<close>.
\<close>

definition elemAt :: "'a list \<Rightarrow> int \<Rightarrow> 'a option" where
  "elemAt xs i = (if 0 \<le> i \<and> i < int (length xs) then Some (xs ! nat i) else None)"

text \<open>
  \<open>append(xs[:i], xs[i+1:]...)\<close>. The slice expression \<open>xs[:i]\<close> panics unless
  \<open>0 \<le> i \<le> cap(xs)\<close> and \<open>xs[i+1:]\<close> unless \<open>i + 1 \<le> len(xs)\<close>; since
  \<open>len(xs) \<le> cap(xs)\<close>, the statement runs exactly when \<open>0 \<le> i < len(xs)\<close>.
\<close>

definition deleteAt :: "'a list \<Rightarrow> int \<Rightarrow> 'a list option" where
  "deleteAt xs i =
    (if 0 \<le> i \<and> i < int (length xs) then Some (take (nat i) xs @ drop (nat (i + 1)) xs)
     else None)"

text \<open>\<open>xs[0], xs[i] = xs[i], xs[0]\<close>\<close>

definition swapFirst :: "'a list \<Rightarrow> int \<Rightarrow> 'a list option" where
  "swapFirst xs i = do {
     a \<leftarrow> elemAt xs 0;
     b \<leftarrow> elemAt xs i;
     Some ((xs[0 := b])[nat i := a])
   }"

subsection \<open>The netlink handle\<close>

datatype errno = ESRCH | ENOENT | EOTHER

datatype xfrmProto = XFRM_PROTO_ESP | XFRM_PROTO_AH | XFRM_PROTO_COMP

datatype xfrmMode = XFRM_MODE_TRANSPORT | XFRM_MODE_TUNNEL

datatype xfrmDir = XFRM_DIR_IN | XFRM_DIR_OUT | XFRM_DIR_FWD

record xfrmStateAlgo =
  algoName :: string
  algoKey :: "byte list"
  algoICVLen :: int

text \<open>The fields of \<open>netlink.XfrmState\<close> that the driver sets.\<close>

record xfrmState =
  saSrc :: ip
  saDst :: ip
  saProto :: xfrmProto
  saSpi :: int
  saMode :: xfrmMode
  saReqid :: int
  saAead :: "xfrmStateAlgo option"

record ipNet =
  netIP :: ip
  netMask :: "byte list"

record xfrmMark =
  markValue :: "32 word"
  markMask :: "32 word"

record xfrmPolicyTmpl =
  tmplSrc :: ip
  tmplDst :: ip
  tmplProto :: xfrmProto
  tmplMode :: xfrmMode
  tmplSpi :: int
  tmplReqid :: int

text \<open>The fields of \<open>netlink.XfrmPolicy\<close> that the driver sets.\<close>

record xfrmPolicy =
  spSrc :: ipNet
  spDst :: ipNet
  spDir :: xfrmDir
  spProto :: int
  spDstPort :: int
  spMark :: xfrmMark
  spTmpls :: "xfrmPolicyTmpl list"

text \<open>The calls the driver makes on \<open>ns.NlHandle()\<close>.\<close>

datatype nlcall =
    XfrmStateGet xfrmState
  | XfrmStateAdd xfrmState
  | XfrmStateDel xfrmState
  | XfrmPolicyGet xfrmPolicy
  | XfrmPolicyAdd xfrmPolicy
  | XfrmPolicyDel xfrmPolicy
  | XfrmPolicyUpdate xfrmPolicy

text \<open>
  The kernel: any function from a call and a kernel state to the call's error (\<open>None\<close>
  for \<open>nil\<close>) and the next kernel state.
\<close>

type_synonym 'k nlhandle = "nlcall \<Rightarrow> 'k \<Rightarrow> errno option \<times> 'k"

text \<open>
  The kernel state together with the calls issued so far and the error each returned,
  oldest first.
\<close>

record 'k netlink =
  kern :: 'k
  issued :: "(nlcall \<times> errno option) list"

text \<open>
  What the encryption code takes from other packages: the netlink handle and
  \<open>overlayutils.VXLANUDPPort()\<close>.
\<close>

record 'k env =
  handle :: "'k nlhandle"
  vxlanUDPPort :: "32 word"

definition nlCall :: "'k nlhandle \<Rightarrow> nlcall \<Rightarrow> 'k netlink \<Rightarrow> errno option \<times> 'k netlink" where
  "nlCall nl c w =
    (case nl c (kern w) of (err, k') \<Rightarrow> (err, \<lparr>kern = k', issued = issued w @ [(c, err)]\<rparr>))"

definition spMark :: xfrmMark where
  "spMark = \<lparr>markValue = 0xD0C4E3, markMask = 0xffffffff\<rparr>"

subsection \<open>SPI derivation\<close>

text \<open>\<open>binary.BigEndian.PutUint32\<close>\<close>

definition putUint32 :: "32 word \<Rightarrow> byte list" where
  "putUint32 v = [ucast (drop_bit 24 v), ucast (drop_bit 16 v), ucast (drop_bit 8 v), ucast v]"

text \<open>\<open>hash/fnv\<close>, \<open>New32a\<close>: offset basis 2166136261, prime 16777619, xor then multiply.\<close>

definition fnv32a :: "byte list \<Rightarrow> 32 word" where
  "fnv32a bs = fold (\<lambda>b h. (h XOR ucast b) * 16777619) bs 2166136261"

text \<open>
  \<open>buildSPI\<close>: the three writes hash the concatenation; \<open>Sum\<close> followed by
  \<open>BigEndian.Uint32\<close> gives the hash value back.
\<close>

definition buildSPI :: "ip \<Rightarrow> ip \<Rightarrow> 32 word \<Rightarrow> int" where
  "buildSPI src dst st = uint (fnv32a (src @ putUint32 st @ dst))"

text \<open>\<open>buildAeadAlgo\<close>; reading \<open>k.value\<close> of a nil key panics.\<close>

definition buildAeadAlgo :: "key option \<Rightarrow> int \<Rightarrow> xfrmStateAlgo option" where
  "buildAeadAlgo k s =
    (case k of
       None \<Rightarrow> None
     | Some k' \<Rightarrow>
         Some \<lparr>algoName = ''rfc4106(gcm(aes))'',
               algoKey = val k' @ putUint32 (word_of_int s),
               algoICVLen = 64\<rparr>)"

subsection \<open>Kernel transform programmer\<close>

text \<open>\<open>saExists\<close>: found, not found (\<open>ESRCH\<close>), or \<open>false\<close> with the error.\<close>

definition saExists :: "'k nlhandle \<Rightarrow> xfrmState \<Rightarrow> 'k netlink \<Rightarrow> (bool \<times> errno option) \<times> 'k netlink" where
  "saExists nl sa w =
    (case nlCall nl (XfrmStateGet sa) w of
       (None, w') \<Rightarrow> ((True, None), w')
     | (Some e, w') \<Rightarrow> (if e = ESRCH then ((False, None), w') else ((False, Some e), w')))"

text \<open>\<open>spExists\<close>: as \<open>saExists\<close>, with \<open>ENOENT\<close> for not found.\<close>

definition spExists :: "'k nlhandle \<Rightarrow> xfrmPolicy \<Rightarrow> 'k netlink \<Rightarrow> (bool \<times> errno option) \<times> 'k netlink" where
  "spExists nl sp w =
    (case nlCall nl (XfrmPolicyGet sp) w of
       (None, w') \<Rightarrow> ((True, None), w')
     | (Some e, w') \<Rightarrow> (if e = ENOENT then ((False, None), w') else ((False, Some e), w')))"

text \<open>
  The block \<open>programSA\<close> runs once per requested direction on the state it has built:
  the existence check, \<open>lastErr\<close> and the assumed opposite state when the check fails,
  and the add or delete when the kernel is not yet as wanted. A failing add or delete
  is logged only.
\<close>

definition programState :: "'k nlhandle \<Rightarrow> bool \<Rightarrow> xfrmState \<Rightarrow> errno option \<Rightarrow> 'k netlink \<Rightarrow> errno option \<times> 'k netlink" where
  "programState nl add sa lastErr w =
    (case saExists nl sa w of
       ((exists, err), w1) \<Rightarrow>
         (let lastErr' = (if err \<noteq> None then err else lastErr);
              exists' = (if err \<noteq> None then \<not> add else exists)
          in if add \<noteq> exists'
             then (lastErr', snd (nlCall nl ((if add then XfrmStateAdd else XfrmStateDel) sa) w1))
             else (lastErr', w1)))"

text \<open>The two \<open>netlink.XfrmState\<close> literals of \<open>programSA\<close>.\<close>

definition reverseState :: "ip \<Rightarrow> ip \<Rightarrow> spi \<Rightarrow> xfrmState" where
  "reverseState localIP remoteIP s =
    \<lparr>saSrc = remoteIP, saDst = localIP, saProto = XFRM_PROTO_ESP, saSpi = reverse_spi s,
     saMode = XFRM_MODE_TRANSPORT, saReqid = mark, saAead = None\<rparr>"

definition forwardState :: "ip \<Rightarrow> ip \<Rightarrow> spi \<Rightarrow> xfrmState" where
  "forwardState localIP remoteIP s =
    \<lparr>saSrc = localIP, saDst = remoteIP, saProto = XFRM_PROTO_ESP, saSpi = forward_spi s,
     saMode = XFRM_MODE_TRANSPORT, saReqid = mark, saAead = None\<rparr>"

text \<open>\<open>if add { sa.Aead = buildAeadAlgo(k, spi) }\<close>\<close>

definition withAead :: "bool \<Rightarrow> key option \<Rightarrow> xfrmState \<Rightarrow> xfrmState option" where
  "withAead add k sa =
    (if add then map_option (\<lambda>a. sa\<lparr>saAead := Some a\<rparr>) (buildAeadAlgo k (saSpi sa))
     else Some sa)"

text \<open>\<open>programSA\<close>: the reverse state first, then the forward state.\<close>

definition programSA :: "'k nlhandle \<Rightarrow> ip \<Rightarrow> ip \<Rightarrow> spi \<Rightarrow> key option \<Rightarrow> int \<Rightarrow> bool \<Rightarrow> 'k netlink
    \<Rightarrow> ((xfrmState option \<times> xfrmState option \<times> errno option) \<times> 'k netlink) option" where
  "programSA nl localIP remoteIP s k dir add w = do {
     (rSA, lastErr, w) \<leftarrow>
       (if dir AND reverse > 0 then do {
          rSA \<leftarrow> withAead add k (reverseState localIP remoteIP s);
          let (lastErr, w) = programState nl add rSA None w;
          Some (Some rSA, lastErr, w)
        } else Some (None, None, w));
     (fSA, lastErr, w) \<leftarrow>
       (if dir AND forward > 0 then do {
          fSA \<leftarrow> withAead add k (forwardState localIP remoteIP s);
          let (lastErr, w) = programState nl add fSA lastErr w;
          Some (Some fSA, lastErr, w)
        } else Some (None, lastErr, w));
     Some ((fSA, rSA, lastErr), w)
   }"

text \<open>
  \<open>getMinimalIP\<close>, with \<open>net.IP.To4\<close>: a 4-byte address is itself, a 16-byte
  IPv4-mapped address is its last four bytes, anything else has no 4-byte form.
\<close>

definition to4 :: "ip \<Rightarrow> ip option" where
  "to4 a =
    (if length a = 4 then Some a
     else if length a = 16 \<and> take 10 a = replicate 10 0 \<and> a ! 10 = 0xff \<and> a ! 11 = 0xff
     then Some (drop 12 a)
     else None)"

definition getMinimalIP :: "ip \<Rightarrow> ip" where
  "getMinimalIP a = (case to4 a of Some b \<Rightarrow> b | None \<Rightarrow> a)"

text \<open>\<open>net.CIDRMask(8*len(s), 8*len(s))\<close>: all ones for 32 or 128 bits, nil otherwise.\<close>

definition fullMask :: "ip \<Rightarrow> byte list" where
  "fullMask s = (if length s = 4 \<or> length s = 16 then replicate (length s) 0xff else [])"

text \<open>
  The outbound policy literal that \<open>programSP\<close> and \<open>updateNodeKey\<close> both build from
  a forward state.
\<close>

definition forwardPolicy :: "32 word \<Rightarrow> xfrmState \<Rightarrow> xfrmPolicy" where
  "forwardPolicy port fSA =
    (let s = getMinimalIP (saSrc fSA);
         d = getMinimalIP (saDst fSA)
     in \<lparr>spSrc = \<lparr>netIP = s, netMask = fullMask s\<rparr>,
         spDst = \<lparr>netIP = d, netMask = fullMask s\<rparr>,
         spDir = XFRM_DIR_OUT,
         spProto = 17,
         spDstPort = uint port,
         spMark = spMark,
         spTmpls = [\<lparr>tmplSrc = saSrc fSA, tmplDst = saDst fSA, tmplProto = XFRM_PROTO_ESP,
                     tmplMode = XFRM_MODE_TRANSPORT, tmplSpi = saSpi fSA, tmplReqid = mark\<rparr>]\<rparr>)"

text \<open>
  \<open>programSP\<close>: dereferencing a nil \<open>fSA\<close> panics; the reverse state is not used; the
  result is always \<open>nil\<close>.
\<close>

definition programSP :: "'k env \<Rightarrow> xfrmState option \<Rightarrow> xfrmState option \<Rightarrow> bool \<Rightarrow> 'k netlink
    \<Rightarrow> (errno option \<times> 'k netlink) option" where
  "programSP E fSA rSA add w = do {
     f \<leftarrow> fSA;
     let fPol = forwardPolicy (vxlanUDPPort E) f;
     let ((exists, err), w) = spExists (handle E) fPol w;
     let exists = (if err \<noteq> None then \<not> add else exists);
     let w = (if add \<noteq> exists
              then snd (nlCall (handle E) ((if add then XfrmPolicyAdd else XfrmPolicyDel) fPol) w)
              else w);
     Some (None, w)
   }"

subsection \<open>Lifecycle controller: setup and teardown\<close>

text \<open>\<open>types.ForbiddenErrorf\<close> and \<open>types.InvalidParameterErrorf\<close>\<close>

datatype error = ForbiddenError | InvalidParameterError

text \<open>The zero value that a Go map read returns for an absent key.\<close>

definition zeroNode :: encrNode where
  "zeroNode = \<lparr>spi = [], count = 0\<rparr>"

definition lookupNode :: "encrMap \<Rightarrow> ip \<Rightarrow> encrNode" where
  "lookupNode m a = (case m a of Some n \<Rightarrow> n | None \<Rightarrow> zeroNode)"

text \<open>
  The literal \<open>spi{buildSPI(advIP, remoteIP, k.tag), buildSPI(remoteIP, advIP, k.tag)}\<close>
  of \<open>setupEncryption\<close> and \<open>updateNodeKey\<close>.
\<close>

definition deriveSpi :: "ip \<Rightarrow> ip \<Rightarrow> key \<Rightarrow> spi" where
  "deriveSpi advIP remoteIP k =
    \<lparr>forward_spi = buildSPI advIP remoteIP (tag k), reverse_spi = buildSPI remoteIP advIP (tag k)\<rparr>"

text \<open>
  The body of the loop \<open>for i, k := range d.keys\<close> of \<open>setupEncryption\<close>: it returns
  the SPI pair that the loop appends to \<open>indices\<close>.
\<close>

definition setupKey :: "'k env \<Rightarrow> ip \<Rightarrow> ip \<Rightarrow> ip \<Rightarrow> nat \<Rightarrow> key \<Rightarrow> 'k netlink \<Rightarrow> (spi \<times> 'k netlink) option" where
  "setupKey E localIP advIP remoteIP i k w = do {
     let spis = deriveSpi advIP remoteIP k;
     let dir = (if i = 0 then bidir else reverse);
     ((fSA, rSA, err), w) \<leftarrow> programSA (handle E) localIP remoteIP spis (Some k) dir True w;
     if i \<noteq> 0 then Some (spis, w)
     else do {
       (err, w) \<leftarrow> programSP E fSA rSA True w;
       Some (spis, w)
     }
   }"

fun setupKeys :: "'k env \<Rightarrow> ip \<Rightarrow> ip \<Rightarrow> ip \<Rightarrow> nat \<Rightarrow> key list \<Rightarrow> spi list \<Rightarrow> 'k netlink
    \<Rightarrow> (spi list \<times> 'k netlink) option" where
  "setupKeys E localIP advIP remoteIP i [] indices w = Some (indices, w)"
| "setupKeys E localIP advIP remoteIP i (k # ks) indices w =
    (case setupKey E localIP advIP remoteIP i k w of
       None \<Rightarrow> None
     | Some (spis, w') \<Rightarrow> setupKeys E localIP advIP remoteIP (Suc i) ks (indices @ [spis]) w')"

text \<open>\<open>setupEncryption\<close>: the result is the returned error, the driver and the kernel.\<close>

definition setupEncryption :: "'k env \<Rightarrow> ip \<Rightarrow> driver \<Rightarrow> 'k netlink
    \<Rightarrow> (error option \<times> driver \<times> 'k netlink) option" where
  "setupEncryption E remoteIP d w =
    (if length (keys d) = 0 then Some (Some ForbiddenError, d, w)
     else do {
       let localIP = bindAddress d;
       let advIP = advertiseAddress d;
       (indices, w) \<leftarrow> setupKeys E localIP advIP remoteIP 0 (keys d) [] w;
       let node = lookupNode (secMap d) remoteIP;
       let node = node\<lparr>spi := indices\<rparr>;
       let node = node\<lparr>count := count node + 1\<rparr>;
       Some (None, d\<lparr>secMap := (secMap d)(remoteIP \<mapsto> node)\<rparr>, w)
     })"

text \<open>The body of the loop \<open>for i, idxs := range spi\<close> of \<open>removeEncryption\<close>.\<close>

definition removeKey :: "'k env \<Rightarrow> ip \<Rightarrow> ip \<Rightarrow> nat \<Rightarrow> spi \<Rightarrow> 'k netlink \<Rightarrow> 'k netlink option" where
  "removeKey E localIP remoteIP i idxs w = do {
     let dir = (if i = 0 then bidir else reverse);
     ((fSA, rSA, err), w) \<leftarrow> programSA (handle E) localIP remoteIP idxs None dir False w;
     if i \<noteq> 0 then Some w
     else do {
       (err, w) \<leftarrow> programSP E fSA rSA False w;
       Some w
     }
   }"

fun removeKeys :: "'k env \<Rightarrow> ip \<Rightarrow> ip \<Rightarrow> nat \<Rightarrow> spi list \<Rightarrow> 'k netlink \<Rightarrow> 'k netlink option" where
  "removeKeys E localIP remoteIP i [] w = Some w"
| "removeKeys E localIP remoteIP i (idxs # rest) w =
    (case removeKey E localIP remoteIP i idxs w of
       None \<Rightarrow> None
     | Some w' \<Rightarrow> removeKeys E localIP remoteIP (Suc i) rest w')"

definition removeEncryption :: "'k env \<Rightarrow> ip \<Rightarrow> driver \<Rightarrow> 'k netlink
    \<Rightarrow> (error option \<times> driver \<times> 'k netlink) option" where
  "removeEncryption E remoteIP d w = do {
     let node = lookupNode (secMap d) remoteIP;
     let (spis, d) =
       (if count node = 1
        then (spi node, d\<lparr>secMap := (secMap d)(remoteIP := None)\<rparr>)
        else ([], d\<lparr>secMap := (secMap d)(remoteIP \<mapsto> node\<lparr>count := count node - 1\<rparr>)\<rparr>));
     w \<leftarrow> removeKeys E (bindAddress d) remoteIP 0 spis w;
     Some (None, d, w)
   }"

subsection \<open>Key rotation\<close>

text \<open>
  \<open>updateNodeKey\<close>, one definition for each block of the source, named after the
  block's comment. Every index expression of the source is an \<open>elemAt\<close>, so that a
  block is \<open>None\<close> exactly when the source panics in it.
\<close>

text \<open>\<open>// add new\<close>\<close>

definition addNew :: "ip \<Rightarrow> ip \<Rightarrow> spi list \<Rightarrow> key list \<Rightarrow> int \<Rightarrow> spi list option" where
  "addNew aIP rIP spis curKeys newIdx =
    (if newIdx \<noteq> -1 then do {
       k \<leftarrow> elemAt curKeys newIdx;
       Some (spis @ [deriveSpi aIP rIP k])
     } else Some spis)"

text \<open>\<open>// -rSA0\<close>\<close>

definition delReverse :: "'k env \<Rightarrow> ip \<Rightarrow> ip \<Rightarrow> spi list \<Rightarrow> int \<Rightarrow> 'k netlink \<Rightarrow> 'k netlink option" where
  "delReverse E lIP rIP spis delIdx w =
    (if delIdx \<noteq> -1 then do {
       s \<leftarrow> elemAt spis delIdx;
       (r, w) \<leftarrow> programSA (handle E) lIP rIP s None reverse False w;
       Some w
     } else Some w)"

text \<open>\<open>// +rSA2\<close>\<close>

definition addReverse :: "'k env \<Rightarrow> ip \<Rightarrow> ip \<Rightarrow> spi list \<Rightarrow> key list \<Rightarrow> int \<Rightarrow> 'k netlink
    \<Rightarrow> 'k netlink option" where
  "addReverse E lIP rIP spis curKeys newIdx w =
    (if newIdx > -1 then do {
       s \<leftarrow> elemAt spis newIdx;
       k \<leftarrow> elemAt curKeys newIdx;
       (r, w) \<leftarrow> programSA (handle E) lIP rIP s (Some k) reverse True w;
       Some w
     } else Some w)"

text \<open>
  \<open>// +fSA2\<close>, \<open>// +fSP2, -fSP1\<close>, \<open>// -fSA1\<close>: the pivot. The error of
  \<open>XfrmPolicyUpdate\<close> is logged and dropped.
\<close>

definition pivot :: "'k env \<Rightarrow> ip \<Rightarrow> ip \<Rightarrow> spi list \<Rightarrow> key list \<Rightarrow> int \<Rightarrow> 'k netlink
    \<Rightarrow> 'k netlink option" where
  "pivot E lIP rIP spis curKeys priIdx w =
    (if priIdx > 0 then do {
       s \<leftarrow> elemAt spis priIdx;
       k \<leftarrow> elemAt curKeys priIdx;
       ((fSA2, rSA2, err), w) \<leftarrow> programSA (handle E) lIP rIP s (Some k) forward True w;
       f \<leftarrow> fSA2;
       let fSP1 = forwardPolicy (vxlanUDPPort E) f;
       let w = snd (nlCall (handle E) (XfrmPolicyUpdate fSP1) w);
       s0 \<leftarrow> elemAt spis 0;
       (r, w) \<leftarrow> programSA (handle E) lIP rIP s0 None forward False w;
       Some w
     } else Some w)"

text \<open>\<open>// swap\<close>\<close>

definition swapPrimary :: "'a list \<Rightarrow> int \<Rightarrow> 'a list option" where
  "swapPrimary spis priIdx = (if priIdx > 0 then swapFirst spis priIdx else Some spis)"

text \<open>\<open>// prune\<close>, in \<open>updateNodeKey\<close> and in \<open>updateKeys\<close>\<close>

definition prune :: "'a list \<Rightarrow> int \<Rightarrow> int \<Rightarrow> 'a list option" where
  "prune xs priIdx delIdx =
    (if delIdx \<noteq> -1
     then (let delIdx = (if delIdx = 0 then priIdx else delIdx) in deleteAt xs delIdx)
     else Some xs)"

definition updateNodeKey :: "'k env \<Rightarrow> ip \<Rightarrow> ip \<Rightarrow> ip \<Rightarrow> spi list \<Rightarrow> key list \<Rightarrow> int \<Rightarrow> int \<Rightarrow> int
    \<Rightarrow> 'k netlink \<Rightarrow> (spi list \<times> 'k netlink) option" where
  "updateNodeKey E lIP aIP rIP idxs curKeys newIdx priIdx delIdx w = do {
     let spis = idxs;
     spis \<leftarrow> addNew aIP rIP spis curKeys newIdx;
     w \<leftarrow> delReverse E lIP rIP spis delIdx w;
     w \<leftarrow> addReverse E lIP rIP spis curKeys newIdx w;
     w \<leftarrow> pivot E lIP rIP spis curKeys priIdx w;
     spis \<leftarrow> swapPrimary spis priIdx;
     spis \<leftarrow> prune spis priIdx delIdx;
     Some (spis, w)
   }"

text \<open>
  The loop \<open>for i, k := range d.keys\<close> of \<open>updateKeys\<close>, which leaves in \<open>priIdx\<close> and
  \<open>delIdx\<close> the last index whose tag matches.
\<close>

definition tagMatches :: "key option \<Rightarrow> key \<Rightarrow> bool" where
  "tagMatches q k = (case q of None \<Rightarrow> False | Some q' \<Rightarrow> tag k = tag q')"

fun keyIndices :: "key option \<Rightarrow> key option \<Rightarrow> nat \<Rightarrow> key list \<Rightarrow> int \<times> int \<Rightarrow> int \<times> int" where
  "keyIndices primary pruneKey i [] (priIdx, delIdx) = (priIdx, delIdx)"
| "keyIndices primary pruneKey i (k # ks) (priIdx, delIdx) =
     keyIndices primary pruneKey (Suc i) ks
       (if tagMatches primary k then int i else priIdx,
        if tagMatches pruneKey k then int i else delIdx)"

text \<open>
  The loop \<open>for rIP, node := range d.secMap\<close> of \<open>updateKeys\<close>. Go leaves the order
  of a map range unspecified: the order is the list \<open>ord\<close>, which enumerates the
  addresses of the map. The source skips the write when \<open>updateNodeKey\<close> returns nil,
  which it does only for a nil sequence that it neither extended nor pruned: the
  write skipped would store the entry already there.
\<close>

fun updateNodes :: "'k env \<Rightarrow> ip \<Rightarrow> ip \<Rightarrow> key list \<Rightarrow> int \<Rightarrow> int \<Rightarrow> int \<Rightarrow> ip list \<Rightarrow> encrMap
    \<Rightarrow> 'k netlink \<Rightarrow> (encrMap \<times> 'k netlink) option" where
  "updateNodes E lIP aIP ks newIdx priIdx delIdx [] m w = Some (m, w)"
| "updateNodes E lIP aIP ks newIdx priIdx delIdx (rIP # ord) m w =
    (case m rIP of
       None \<Rightarrow> updateNodes E lIP aIP ks newIdx priIdx delIdx ord m w
     | Some node \<Rightarrow>
        (case updateNodeKey E lIP aIP rIP (spi node) ks newIdx priIdx delIdx w of
           None \<Rightarrow> None
         | Some (idxs, w') \<Rightarrow>
             updateNodes E lIP aIP ks newIdx priIdx delIdx ord
               (m(rIP \<mapsto> \<lparr>spi = idxs, count = count node\<rparr>)) w'))"


text \<open>
  \<open>updateKeys\<close>. The new key is appended to \<open>d.keys\<close> before the indices are looked
  up and checked, so the driver returned with an error is the one after the append.
\<close>

definition updateKeys :: "'k env \<Rightarrow> ip list \<Rightarrow> key option \<Rightarrow> key option \<Rightarrow> key option \<Rightarrow> driver
    \<Rightarrow> 'k netlink \<Rightarrow> (error option \<times> driver \<times> 'k netlink) option" where
  "updateKeys E ord newKey primary pruneKey d w =
    (let newIdx = -1;
         lIP = bindAddress d;
         aIP = advertiseAddress d;
         d = (case newKey of None \<Rightarrow> d | Some k \<Rightarrow> d\<lparr>keys := keys d @ [k]\<rparr>);
         newIdx = (case newKey of None \<Rightarrow> newIdx | Some k \<Rightarrow> newIdx + int (length (keys d)));
         (priIdx, delIdx) = keyIndices primary pruneKey 0 (keys d) (-1, -1)
     in if (newKey \<noteq> None \<and> newIdx = -1) \<or> (primary \<noteq> None \<and> priIdx = -1)
           \<or> (pruneKey \<noteq> None \<and> delIdx = -1)
        then Some (Some InvalidParameterError, d, w)
        else if priIdx \<noteq> -1 \<and> priIdx = delIdx
        then Some (Some InvalidParameterError, d, w)
        else do {
          (m, w) \<leftarrow> updateNodes E lIP aIP (keys d) newIdx priIdx delIdx ord (secMap d) w;
          let d = d\<lparr>secMap := m\<rparr>;
          ks \<leftarrow> (if priIdx \<noteq> -1 then swapFirst (keys d) priIdx else Some (keys d));
          ks \<leftarrow> prune ks priIdx delIdx;
          Some (None, d\<lparr>keys := ks\<rparr>, w)
        })"

subsection \<open>What programming a kernel object means\<close>

text \<open>
  The description of the transform programmer that the properties below compare the
  code with. It follows the specification's words: an object (an SA or an SP) is
  programmed by one existence check and, unless the kernel is already known to be in
  the wanted state, one add or remove; a check that fails for another reason than
  \<open>not found\<close> counts as the opposite of the wanted state.
\<close>

datatype kobj = SA xfrmState | SP xfrmPolicy

definition checkOf :: "kobj \<Rightarrow> nlcall" where
  "checkOf ob = (case ob of SA sa \<Rightarrow> XfrmStateGet sa | SP sp \<Rightarrow> XfrmPolicyGet sp)"

definition changeOf :: "bool \<Rightarrow> kobj \<Rightarrow> nlcall" where
  "changeOf add ob =
    (case ob of
       SA sa \<Rightarrow> (if add then XfrmStateAdd sa else XfrmStateDel sa)
     | SP sp \<Rightarrow> (if add then XfrmPolicyAdd sp else XfrmPolicyDel sp))"

definition notFound :: "kobj \<Rightarrow> errno" where
  "notFound ob = (case ob of SA sa \<Rightarrow> ESRCH | SP sp \<Rightarrow> ENOENT)"

definition attempted :: "bool \<Rightarrow> kobj \<Rightarrow> errno option \<Rightarrow> bool" where
  "attempted add ob ans = (if add then ans \<noteq> None else ans \<noteq> Some (notFound ob))"

text \<open>
  \<open>programmed add obs cs\<close>: the calls \<open>cs\<close>, with their answers, are the programming
  of the objects \<open>obs\<close>, in order and with nothing else in between.
\<close>

fun programmed :: "bool \<Rightarrow> kobj list \<Rightarrow> (nlcall \<times> errno option) list \<Rightarrow> bool" where
  "programmed add [] cs = (cs = [])"
| "programmed add (ob # obs) [] = False"
| "programmed add (ob # obs) ((c, ans) # cs) =
    (c = checkOf ob \<and>
     (if attempted add ob ans
      then (case cs of
              [] \<Rightarrow> False
            | (c', ans') # cs' \<Rightarrow> c' = changeOf add ob \<and> programmed add obs cs')
      else programmed add obs cs))"

text \<open>
  The states that \<open>programSA\<close> builds when it adds for a key: the code's own literals
  put together (\<open>reverseState\<close> or \<open>forwardState\<close> on the derived SPI pair, with the
  algorithm of \<open>buildAeadAlgo\<close>). They only name these states; what each of them
  holds is stated field by field where a property depends on it.
\<close>

definition keyReverseSA :: "ip \<Rightarrow> ip \<Rightarrow> ip \<Rightarrow> key \<Rightarrow> xfrmState" where
  "keyReverseSA localIP advIP remoteIP k =
    (reverseState localIP remoteIP (deriveSpi advIP remoteIP k))
      \<lparr>saAead := buildAeadAlgo (Some k) (reverse_spi (deriveSpi advIP remoteIP k))\<rparr>"

definition keyForwardSA :: "ip \<Rightarrow> ip \<Rightarrow> ip \<Rightarrow> key \<Rightarrow> xfrmState" where
  "keyForwardSA localIP advIP remoteIP k =
    (forwardState localIP remoteIP (deriveSpi advIP remoteIP k))
      \<lparr>saAead := buildAeadAlgo (Some k) (forward_spi (deriveSpi advIP remoteIP k))\<rparr>"

text \<open>
  The objects \<open>setupEncryption\<close> goes through, in Key Store order, again as the
  code's own literals.
\<close>

definition setupPlan :: "32 word \<Rightarrow> ip \<Rightarrow> ip \<Rightarrow> ip \<Rightarrow> key list \<Rightarrow> kobj list" where
  "setupPlan port localIP advIP remoteIP ks =
    (case ks of
       [] \<Rightarrow> []
     | k0 # rest \<Rightarrow>
         [SA (keyReverseSA localIP advIP remoteIP k0),
          SA (keyForwardSA localIP advIP remoteIP k0),
          SP (forwardPolicy port (keyForwardSA localIP advIP remoteIP k0))]
         @ map (\<lambda>k. SA (keyReverseSA localIP advIP remoteIP k)) rest)"

subsection \<open>Example inputs\<close>

text \<open>
  The concrete inputs at which the properties below are instantiated: two IPv4
  addresses, two 16-byte keys, a kernel that refuses every netlink call with an error
  other than \<open>not found\<close> (its state is trivial), and a call log that is still empty.
\<close>

abbreviation localAddr :: ip where
  "localAddr \<equiv> [10, 0, 0, 1]"

abbreviation peerAddr :: ip where
  "peerAddr \<equiv> [10, 0, 0, 2]"

abbreviation keyA :: key where
  "keyA \<equiv> \<lparr>val = [1, 2, 3, 4, 5, 6, 7, 8, 9, 10, 11, 12, 13, 14, 15, 16], tag = 1\<rparr>"

abbreviation keyB :: key where
  "keyB \<equiv> \<lparr>val = [16, 15, 14, 13, 12, 11, 10, 9, 8, 7, 6, 5, 4, 3, 2, 1], tag = 2\<rparr>"

abbreviation refusingKernel :: "unit env" where
  "refusingKernel \<equiv> \<lparr>handle = (\<lambda>c k. (Some EOTHER, k)), vxlanUDPPort = 4789\<rparr>"

abbreviation freshNetlink :: "unit netlink" where
  "freshNetlink \<equiv> \<lparr>kern = (), issued = []\<rparr>"

section \<open>Properties\<close>

subsection \<open>MTU accounting\<close>

lemma smod4_nonneg:
  fixes m :: int
  assumes "0 \<le> m"
  shows "m - (m smod 4) = (m div 4) * 4"
proof -
  have "m smod 4 = m mod 4"
    using assms by (simp add: smod_int_alt_def sgn_if)
  then show ?thesis
    by (simp add: minus_mod_eq_div_mult)
qed

text \<open>
  Claim C9. With the link MTU configured as 1500 or left unset (0, which defaults to
  1500), \<open>maxMTU\<close> returns 1500 minus the overlay encapsulation overhead when encryption
  is disabled; when encryption is enabled it returns that value minus the ESP expansion
  constant 26, rounded down to a multiple of 4. The overhead is any value that leaves
  a non-negative MTU after both subtractions (at most 1474).
\<close>

theorem maxMTU_1500:
  assumes "m = 1500 \<or> m = 0" and "vxlanEncap \<le> 1474"
  shows "maxMTU vxlanEncap \<lparr>mtu = m, secure = False\<rparr> = 1500 - vxlanEncap
       \<and> maxMTU vxlanEncap \<lparr>mtu = m, secure = True\<rparr> = ((1500 - vxlanEncap - 26) div 4) * 4
       \<and> 4 dvd maxMTU vxlanEncap \<lparr>mtu = m, secure = True\<rparr>
       \<and> maxMTU vxlanEncap \<lparr>mtu = m, secure = True\<rparr> \<le> 1500 - vxlanEncap - 26
       \<and> 1500 - vxlanEncap - 26 < maxMTU vxlanEncap \<lparr>mtu = m, secure = True\<rparr> + 4"
proof -
  have nn: "0 \<le> 1500 - vxlanEncap - 26"
    using assms(2) by simp
  have plain: "maxMTU vxlanEncap \<lparr>mtu = m, secure = False\<rparr> = 1500 - vxlanEncap"
    using assms(1) by (auto simp: maxMTU_def)
  have eq: "maxMTU vxlanEncap \<lparr>mtu = m, secure = True\<rparr> = ((1500 - vxlanEncap - 26) div 4) * 4"
    using assms(1) smod4_nonneg [OF nn] by (auto simp: maxMTU_def pktExpansion_def Let_def)
  have "4 dvd ((1500 - vxlanEncap - 26) div 4) * 4"
    by simp
  moreover have "((1500 - vxlanEncap - 26) div 4) * 4 \<le> 1500 - vxlanEncap - 26"
    by presburger
  moreover have "1500 - vxlanEncap - 26 < ((1500 - vxlanEncap - 26) div 4) * 4 + 4"
    by presburger
  ultimately show ?thesis
    using plain eq by simp
qed

theorem maxMTU_1500_witness:
  "((0::int) = 1500 \<or> (0::int) = 0) \<and> (50::int) \<le> 1474
   \<and> maxMTU 50 \<lparr>mtu = 0, secure = False\<rparr> = 1450
   \<and> maxMTU 50 \<lparr>mtu = 0, secure = True\<rparr> = 1424"
proof -
  have h1: "(0::int) = 1500 \<or> (0::int) = 0" by simp
  have h2: "(50::int) \<le> 1474" by simp
  show ?thesis
    using maxMTU_1500 [OF h1 h2] by simp
qed

subsection \<open>Kernel transform programmer: what is returned\<close>

lemma dir_bits:
  "0 < bidir AND reverse" "0 < bidir AND forward"
  "0 < reverse AND reverse" "\<not> 0 < reverse AND forward"
  "\<not> 0 < forward AND reverse" "0 < forward AND forward"
  "0 < forward" "0 < reverse"
  by (simp_all add: bidir_def reverse_def forward_def)

lemma withAead_Some:
  assumes "add \<longrightarrow> k \<noteq> None"
  shows "\<exists>sa'. withAead add k sa = Some sa'"
  using assms by (cases k) (auto simp: withAead_def buildAeadAlgo_def)

lemma programSA_returns:
  assumes "add \<longrightarrow> k \<noteq> None"
  shows "\<exists>err w'. programSA nl l r s k dir add w =
           Some ((if 0 < dir AND forward then withAead add k (forwardState l r s) else None,
                  if 0 < dir AND reverse then withAead add k (reverseState l r s) else None,
                  err), w')"
proof -
  obtain fs where fs: "withAead add k (forwardState l r s) = Some fs"
    using withAead_Some [OF assms] by blast
  obtain rs where rs: "withAead add k (reverseState l r s) = Some rs"
    using withAead_Some [OF assms] by blast
  show ?thesis
    by (simp add: programSA_def fs rs split_def)
qed

lemma programSP_returns: "\<exists>w'. programSP E (Some f) rSA add w = Some (None, w')"
  by (simp add: programSP_def split_def Let_def)

lemma setupKey_returns:
  "\<exists>w'. setupKey E l a r i k w = Some (deriveSpi a r k, w')"
proof -
  let ?dir = "if i = 0 then bidir else reverse"
  obtain err w1 where p: "programSA (handle E) l r (deriveSpi a r k) (Some k) ?dir True w =
      Some ((if 0 < ?dir AND forward then withAead True (Some k) (forwardState l r (deriveSpi a r k)) else None,
             if 0 < ?dir AND reverse then withAead True (Some k) (reverseState l r (deriveSpi a r k)) else None,
             err), w1)"
    using programSA_returns [of True "Some k"] by blast
  show ?thesis
  proof (cases "i = 0")
    case True
    obtain fs where fs: "withAead True (Some k) (forwardState l r (deriveSpi a r k)) = Some fs"
      using withAead_Some [of True "Some k"] by blast
    obtain w2 where "programSP E (Some fs) (withAead True (Some k) (reverseState l r (deriveSpi a r k))) True w1 = Some (None, w2)"
      using programSP_returns by blast
    then show ?thesis
      using p True fs by (simp add: setupKey_def dir_bits)
  next
    case False
    then show ?thesis
      using p by (simp add: setupKey_def dir_bits)
  qed
qed

lemma setupKeys_returns:
  "\<exists>w'. setupKeys E l a r i ks acc w = Some (acc @ map (deriveSpi a r) ks, w')"
proof (induction ks arbitrary: i acc w)
  case Nil
  then show ?case by simp
next
  case (Cons k ks)
  obtain w1 where "setupKey E l a r i k w = Some (deriveSpi a r k, w1)"
    using setupKey_returns by blast
  then show ?case
    using Cons.IH [of "Suc i" "acc @ [deriveSpi a r k]" w1] by simp
qed

lemma removeKey_returns: "\<exists>w'. removeKey E l r i s w = Some w'"
proof -
  let ?dir = "if i = 0 then bidir else reverse"
  obtain err w1 where p: "programSA (handle E) l r s None ?dir False w =
      Some ((if 0 < ?dir AND forward then withAead False None (forwardState l r s) else None,
             if 0 < ?dir AND reverse then withAead False None (reverseState l r s) else None,
             err), w1)"
    using programSA_returns [of False None] by blast
  show ?thesis
  proof (cases "i = 0")
    case True
    obtain w2 where "programSP E (Some (forwardState l r s)) (Some (reverseState l r s)) False w1 = Some (None, w2)"
      using programSP_returns by blast
    then show ?thesis
      using p True by (simp add: removeKey_def dir_bits withAead_def)
  next
    case False
    then show ?thesis
      using p by (simp add: removeKey_def dir_bits)
  qed
qed

lemma removeKeys_returns: "\<exists>w'. removeKeys E l r i spis w = Some w'"
proof (induction spis arbitrary: i w)
  case Nil
  then show ?case by simp
next
  case (Cons s spis)
  obtain w1 where "removeKey E l r i s w = Some w1"
    using removeKey_returns by blast
  then show ?case
    using Cons.IH [of "Suc i" w1] by simp
qed

subsection \<open>Setup and teardown\<close>

lemma setupEncryption_returns:
  assumes "keys d \<noteq> []"
  shows "\<exists>w'. setupEncryption E r d w =
    Some (None,
          d\<lparr>secMap := (secMap d)(r \<mapsto>
              \<lparr>spi = map (deriveSpi (advertiseAddress d) r) (keys d),
               count = count (lookupNode (secMap d) r) + 1\<rparr>)\<rparr>,
          w')"
proof -
  obtain w1 where "setupKeys E (bindAddress d) (advertiseAddress d) r 0 (keys d) [] w =
      Some ([] @ map (deriveSpi (advertiseAddress d) r) (keys d), w1)"
    using setupKeys_returns by blast
  then show ?thesis
    using assms by (cases "lookupNode (secMap d) r") (simp add: setupEncryption_def Let_def)
qed

lemma setupEncryption_no_keys:
  assumes "keys d = []"
  shows "setupEncryption E r d w = Some (Some ForbiddenError, d, w)"
  using assms by (simp add: setupEncryption_def)

lemma removeEncryption_last:
  assumes "count (lookupNode (secMap d) r) = 1"
  shows "\<exists>w'. removeEncryption E r d w = Some (None, d\<lparr>secMap := (secMap d)(r := None)\<rparr>, w')"
proof -
  obtain w1 where "removeKeys E (bindAddress d) r 0 (spi (lookupNode (secMap d) r)) w = Some w1"
    using removeKeys_returns by blast
  then show ?thesis
    using assms by (simp add: removeEncryption_def)
qed

lemma removeEncryption_other:
  assumes "count (lookupNode (secMap d) r) \<noteq> 1"
  shows "removeEncryption E r d w =
    Some (None,
          d\<lparr>secMap := (secMap d)(r \<mapsto>
              (lookupNode (secMap d) r)\<lparr>count := count (lookupNode (secMap d) r) - 1\<rparr>)\<rparr>,
          w)"
  using assms by (simp add: removeEncryption_def Let_def)

text \<open>
  Claim C7. For a remote address \<open>r\<close> with no entry in the Peer Security Map and a
  non-empty Key Store, \<open>setupEncryption r\<close> followed at once by \<open>removeEncryption r\<close>
  gives back the driver as it was, so the map has no entry for \<open>r\<close>; after a second
  \<open>setupEncryption r\<close> the reference count is 2, and one \<open>removeEncryption r\<close> then only
  lowers it to 1: the entry and its SPI sequence stay, and no netlink call is made.
  This holds for every kernel behaviour.
\<close>

theorem setup_remove_roundtrip:
  assumes "secMap d r = None" and "keys d \<noteq> []"
  shows "\<exists>d1 w1 w2 d3 w3 d4.
      setupEncryption E r d w = Some (None, d1, w1)
    \<and> secMap d1 r = Some \<lparr>spi = map (deriveSpi (advertiseAddress d) r) (keys d), count = 1\<rparr>
    \<and> removeEncryption E r d1 w1 = Some (None, d, w2)
    \<and> setupEncryption E r d1 w1 = Some (None, d3, w3)
    \<and> secMap d3 r = Some \<lparr>spi = map (deriveSpi (advertiseAddress d) r) (keys d), count = 2\<rparr>
    \<and> removeEncryption E r d3 w3 = Some (None, d4, w3)
    \<and> secMap d4 r = Some \<lparr>spi = map (deriveSpi (advertiseAddress d) r) (keys d), count = 1\<rparr>
    \<and> secMap d4 = secMap d1"
proof -
  let ?S = "map (deriveSpi (advertiseAddress d) r) (keys d)"
  let ?d1 = "d\<lparr>secMap := (secMap d)(r \<mapsto> \<lparr>spi = ?S, count = 1\<rparr>)\<rparr>"
  let ?d3 = "d\<lparr>secMap := (secMap d)(r \<mapsto> \<lparr>spi = ?S, count = 2\<rparr>)\<rparr>"
  obtain w1 where s1: "setupEncryption E r d w = Some (None, ?d1, w1)"
    using setupEncryption_returns [OF assms(2), of E r w] assms(1)
    by (auto simp: lookupNode_def zeroNode_def)
  have k1: "keys ?d1 \<noteq> []"
    using assms(2) by simp
  obtain w2 where r1: "removeEncryption E r ?d1 w1 = Some (None, d, w2)"
    using removeEncryption_last [of ?d1 r E w1] fun_upd_idem [of "secMap d" r None] assms(1)
    by (auto simp: lookupNode_def)
  obtain w3 where s2: "setupEncryption E r ?d1 w1 = Some (None, ?d3, w3)"
    using setupEncryption_returns [OF k1, of E r w1]
    by (auto simp: lookupNode_def)
  have r2: "removeEncryption E r ?d3 w3 = Some (None, ?d1, w3)"
    using removeEncryption_other [of ?d3 r E w3]
    by (simp add: lookupNode_def)
  show ?thesis
    using s1 r1 s2 r2 by auto
qed

theorem setup_remove_roundtrip_witness:
  "secMap \<lparr>keys = [keyA], secMap = Map.empty, bindAddress = localAddr, advertiseAddress = localAddr\<rparr> peerAddr = None
   \<and> keys \<lparr>keys = [keyA], secMap = Map.empty, bindAddress = localAddr, advertiseAddress = localAddr\<rparr> \<noteq> []
   \<and> (\<exists>d1 w1 w2 d3 w3 d4.
        setupEncryption refusingKernel peerAddr
          \<lparr>keys = [keyA], secMap = Map.empty, bindAddress = localAddr, advertiseAddress = localAddr\<rparr>
          freshNetlink = Some (None, d1, w1)
      \<and> secMap d1 peerAddr = Some \<lparr>spi = [deriveSpi localAddr peerAddr keyA], count = 1\<rparr>
      \<and> removeEncryption refusingKernel peerAddr d1 w1
           = Some (None, \<lparr>keys = [keyA], secMap = Map.empty, bindAddress = localAddr, advertiseAddress = localAddr\<rparr>, w2)
      \<and> setupEncryption refusingKernel peerAddr d1 w1 = Some (None, d3, w3)
      \<and> secMap d3 peerAddr = Some \<lparr>spi = [deriveSpi localAddr peerAddr keyA], count = 2\<rparr>
      \<and> removeEncryption refusingKernel peerAddr d3 w3 = Some (None, d4, w3)
      \<and> secMap d4 peerAddr = Some \<lparr>spi = [deriveSpi localAddr peerAddr keyA], count = 1\<rparr>
      \<and> secMap d4 = secMap d1)"
proof -
  let ?d = "\<lparr>keys = [keyA], secMap = Map.empty, bindAddress = localAddr, advertiseAddress = localAddr\<rparr>"
  have h1: "secMap ?d peerAddr = None" by simp
  have h2: "keys ?d \<noteq> []" by simp
  show ?thesis
    using h1 h2
      setup_remove_roundtrip [OF h1 h2, of refusingKernel freshNetlink]
    by simp
qed

text \<open>
  Claim C1 does not hold of the code. \<open>removeEncryption\<close> reads the zero value for an
  address that has no entry; its count is 0, not 1, so the \<open>else\<close> branch decrements
  it and stores the node: the map gains an entry whose reference count is \<open>-1\<close>.
\<close>

theorem removeEncryption_absent_peer:
  "removeEncryption E r (d\<lparr>secMap := Map.empty\<rparr>) w
     = Some (None, d\<lparr>secMap := [r \<mapsto> \<lparr>spi = [], count = - 1\<rparr>]\<rparr>, w)
   \<and> sint (count \<lparr>spi = [], count = - 1\<rparr>) = - 1"
  using removeEncryption_other [of "d\<lparr>secMap := Map.empty\<rparr>" r E w]
  by (simp add: lookupNode_def zeroNode_def)

subsection \<open>Key rotation: indices and the per-node update\<close>

lemma keyIndices_same: "fst (keyIndices q q i ks (a, a)) = snd (keyIndices q q i ks (a, a))"
  by (induction ks arbitrary: i a) auto





lemma delReverse_None_iff:
  "delReverse E l r spis dl w = None \<longleftrightarrow> dl \<noteq> -1 \<and> elemAt spis dl = None"
proof (cases "elemAt spis dl")
  case None
  then show ?thesis by (simp add: delReverse_def)
next
  case (Some s)
  obtain fs rs err w1 where "programSA (handle E) l r s None reverse False w = Some ((fs, rs, err), w1)"
    using programSA_returns [of False None] by blast
  then show ?thesis
    using Some by (simp add: delReverse_def)
qed

lemma addReverse_None_iff:
  "addReverse E l r spis ks n w = None \<longleftrightarrow> n > -1 \<and> (elemAt spis n = None \<or> elemAt ks n = None)"
proof (cases "elemAt spis n")
  case None
  then show ?thesis by (simp add: addReverse_def)
next
  case s: (Some s)
  show ?thesis
  proof (cases "elemAt ks n")
    case None
    then show ?thesis using s by (simp add: addReverse_def)
  next
    case (Some k)
    obtain fs rs err w1 where "programSA (handle E) l r s (Some k) reverse True w = Some ((fs, rs, err), w1)"
      using programSA_returns [of True "Some k"] by blast
    then show ?thesis
      using s Some by (simp add: addReverse_def)
  qed
qed

lemma pivot_None_iff:
  "pivot E l r spis ks p w = None
     \<longleftrightarrow> p > 0 \<and> (elemAt spis p = None \<or> elemAt ks p = None \<or> elemAt spis 0 = None)"
proof (cases "p > 0")
  case False
  then show ?thesis by (simp add: pivot_def)
next
  case True
  show ?thesis
  proof (cases "elemAt spis p")
    case None
    then show ?thesis using True by (simp add: pivot_def)
  next
    case s: (Some s)
    show ?thesis
    proof (cases "elemAt ks p")
      case None
      then show ?thesis using True s by (simp add: pivot_def)
    next
      case k: (Some k)
      obtain f where f: "withAead True (Some k) (forwardState l r s) = Some f"
        using withAead_Some [of True "Some k"] by blast
      obtain err w1 where p1: "programSA (handle E) l r s (Some k) forward True w =
          Some ((Some f, None, err), w1)"
        using programSA_returns [of True "Some k" "handle E" l r s forward w] f
        by (auto simp: dir_bits)
      show ?thesis
      proof (cases "elemAt spis 0")
        case None
        then show ?thesis using True s k p1 by (simp add: pivot_def)
      next
        case (Some s0)
        obtain fs rs err2 w2 where "programSA (handle E) l r s0 None forward False
            (snd (nlCall (handle E) (XfrmPolicyUpdate (forwardPolicy (vxlanUDPPort E) f)) w1))
            = Some ((fs, rs, err2), w2)"
          using programSA_returns [of False None] by blast
        then show ?thesis
          using True s k p1 Some by (simp add: pivot_def)
      qed
    qed
  qed
qed

lemma updateNodeKey_fst:
  "map_option fst (updateNodeKey E l a r idxs ks n p dl w) =
    (case addNew a r idxs ks n of
       None \<Rightarrow> None
     | Some spis \<Rightarrow>
        if (dl \<noteq> -1 \<and> elemAt spis dl = None)
           \<or> (n > -1 \<and> (elemAt spis n = None \<or> elemAt ks n = None))
           \<or> (p > 0 \<and> (elemAt spis p = None \<or> elemAt ks p = None \<or> elemAt spis 0 = None))
        then None
        else Option.bind (swapPrimary spis p) (\<lambda>spis. prune spis p dl))"
proof (cases "addNew a r idxs ks n")
  case None
  then show ?thesis by (simp add: updateNodeKey_def)
next
  case spis: (Some spis)
  show ?thesis
  proof (cases "delReverse E l r spis dl w")
    case None
    then show ?thesis
      using spis delReverse_None_iff [of E l r spis dl w] by (simp add: updateNodeKey_def)
  next
    case w1: (Some w1)
    show ?thesis
    proof (cases "addReverse E l r spis ks n w1")
      case None
      then show ?thesis
        using spis w1 addReverse_None_iff [of E l r spis ks n w1] by (simp add: updateNodeKey_def)
    next
      case w2: (Some w2)
      show ?thesis
      proof (cases "pivot E l r spis ks p w2")
        case None
        then show ?thesis
          using spis w1 w2 pivot_None_iff [of E l r spis ks p w2] by (simp add: updateNodeKey_def)
      next
        case w3: (Some w3)
        have c1: "\<not> (dl \<noteq> -1 \<and> elemAt spis dl = None)"
          using w1 delReverse_None_iff [of E l r spis dl w] by simp
        have c2: "\<not> (n > -1 \<and> (elemAt spis n = None \<or> elemAt ks n = None))"
          using w2 addReverse_None_iff [of E l r spis ks n w1] by simp
        have c3: "\<not> (p > 0 \<and> (elemAt spis p = None \<or> elemAt ks p = None \<or> elemAt spis 0 = None))"
          using w3 pivot_None_iff [of E l r spis ks p w2] by simp
        have "map_option fst (updateNodeKey E l a r idxs ks n p dl w)
                = Option.bind (swapPrimary spis p) (\<lambda>spis. prune spis p dl)"
          using spis w1 w2 w3
          by (cases "swapPrimary spis p"; cases "prune (the (swapPrimary spis p)) p dl")
             (simp_all add: updateNodeKey_def)
        then show ?thesis
          using spis c1 c2 c3 by auto
      qed
    qed
  qed
qed

lemma updateNodes_kernel_free:
  "map_option fst (updateNodes E l a ks n p dl ord m w)
     = map_option fst (updateNodes E' l a ks n p dl ord m w')"
proof (induction ord arbitrary: m w w')
  case Nil
  then show ?case by simp
next
  case (Cons rIP ord)
  show ?case
  proof (cases "m rIP")
    case None
    then show ?thesis using Cons.IH by simp
  next
    case (Some node)
    have same: "map_option fst (updateNodeKey E l a rIP (spi node) ks n p dl w)
          = map_option fst (updateNodeKey E' l a rIP (spi node) ks n p dl w')"
      by (simp only: updateNodeKey_fst)
    show ?thesis
    proof (cases "updateNodeKey E l a rIP (spi node) ks n p dl w")
      case None
      then have "updateNodeKey E' l a rIP (spi node) ks n p dl w' = None"
        using same by simp
      then show ?thesis using Some None by simp
    next
      case res: (Some res)
      obtain idxs w1 where r1: "updateNodeKey E l a rIP (spi node) ks n p dl w = Some (idxs, w1)"
        using res by (cases res) simp
      obtain w1' where r2: "updateNodeKey E' l a rIP (spi node) ks n p dl w' = Some (idxs, w1')"
        using same r1 by (cases "updateNodeKey E' l a rIP (spi node) ks n p dl w'") auto
      show ?thesis
        using Some r1 r2 Cons.IH by simp
    qed
  qed
qed



subsection \<open>Key rotation: rejected requests\<close>

text \<open>\<open>updateKeys\<close> with its local variables named.\<close>

lemma updateKeys_unfold:
  assumes "d1 = (case newKey of None \<Rightarrow> d | Some k \<Rightarrow> d\<lparr>keys := keys d @ [k]\<rparr>)"
    and "n = (case newKey of None \<Rightarrow> -1 | Some k \<Rightarrow> int (length (keys d)))"
    and "keyIndices primary pruneKey 0 (keys d1) (-1, -1) = (p, q)"
  shows "updateKeys E ord newKey primary pruneKey d w =
    (if (primary \<noteq> None \<and> p = -1) \<or> (pruneKey \<noteq> None \<and> q = -1) \<or> (p \<noteq> -1 \<and> p = q)
     then Some (Some InvalidParameterError, d1, w)
     else Option.bind (updateNodes E (bindAddress d) (advertiseAddress d) (keys d1) n p q ord (secMap d) w)
       (\<lambda>(m, w'). Option.bind (if p \<noteq> -1 then swapFirst (keys d1) p else Some (keys d1))
         (\<lambda>ks. Option.bind (prune ks p q)
           (\<lambda>ks. Some (None, d1\<lparr>secMap := m, keys := ks\<rparr>, w')))))"
proof (cases newKey)
  case None
  then show ?thesis
    using assms by (auto simp: updateKeys_def Let_def)
next
  case (Some k)
  then show ?thesis
    using assms by (auto simp: updateKeys_def Let_def)
qed

text \<open>
  Whenever \<open>updateKeys\<close> returns an error, it is the invalid-parameter error, no netlink
  call has been issued, and the driver differs from the one before the call at most
  by the new key appended to the Key Store.
\<close>

lemma updateKeys_rejected_frame:
  assumes "updateKeys E ord newKey primary pruneKey d w = Some (Some e, d', w')"
  shows "e = InvalidParameterError \<and> w' = w
     \<and> d' = d\<lparr>keys := keys d @ (case newKey of None \<Rightarrow> [] | Some k \<Rightarrow> [k])\<rparr>"
proof -
  define d1 where "d1 = (case newKey of None \<Rightarrow> d | Some k \<Rightarrow> d\<lparr>keys := keys d @ [k]\<rparr>)"
  define n where "n = (case newKey of None \<Rightarrow> -1 | Some k \<Rightarrow> int (length (keys d)))"
  obtain p q where pq: "keyIndices primary pruneKey 0 (keys d1) (-1, -1) = (p, q)"
    by (cases "keyIndices primary pruneKey 0 (keys d1) (-1, -1)")
  have d1: "d1 = d\<lparr>keys := keys d @ (case newKey of None \<Rightarrow> [] | Some k \<Rightarrow> [k])\<rparr>"
    by (cases newKey) (simp_all add: d1_def)
  show ?thesis
    using assms d1 unfolding updateKeys_unfold [OF d1_def n_def pq]
    by (auto split: if_splits Option.bind_splits)
qed

text \<open>
  Claim C3. In every state and for every key \<open>K\<close> (and whatever the new-key argument is),
  \<open>updateKeys\<close> with \<open>K\<close> as both primary and prune key returns the
  invalid-parameter error; the kernel state is the one before the call and no netlink
  call has been issued, so no SA or SP is added, removed or updated.
\<close>

theorem updateKeys_promote_and_prune_rejected:
  "updateKeys E ord newKey (Some K) (Some K) d w =
     Some (Some InvalidParameterError,
           (case newKey of None \<Rightarrow> d | Some k \<Rightarrow> d\<lparr>keys := keys d @ [k]\<rparr>), w)"
proof -
  let ?d = "case newKey of None \<Rightarrow> d | Some k \<Rightarrow> d\<lparr>keys := keys d @ [k]\<rparr>"
  obtain p q where pq: "keyIndices (Some K) (Some K) 0 (keys ?d) (-1, -1) = (p, q)"
    by (cases "keyIndices (Some K) (Some K) 0 (keys ?d) (-1, -1)")
  have "p = q"
    using keyIndices_same [of "Some K" 0 "keys ?d" "-1"] pq by simp
  then show ?thesis
    using pq by (cases newKey) (auto simp: updateKeys_def Let_def)
qed

theorem updateKeys_promote_and_prune_rejected_witness:
  "updateKeys refusingKernel [] None
      (Some keyA) (Some keyA)
      \<lparr>keys = [keyA], secMap = Map.empty, bindAddress = localAddr, advertiseAddress = localAddr\<rparr>
      freshNetlink
    = Some (Some InvalidParameterError,
        \<lparr>keys = [keyA], secMap = Map.empty, bindAddress = localAddr, advertiseAddress = localAddr\<rparr>,
        freshNetlink)"
  using updateKeys_promote_and_prune_rejected
    [of refusingKernel "[]" None keyA
        "\<lparr>keys = [keyA], secMap = Map.empty, bindAddress = localAddr, advertiseAddress = localAddr\<rparr>"
        freshNetlink]
  by simp

text \<open>
  Claim C2 does not hold of the code. With a new key and a primary key whose tag is
  not in the list, \<open>updateKeys\<close> returns the invalid-parameter error, and the Key
  Store it leaves behind holds the new key: the append comes before the checks and
  is not undone. The Peer Security Map and the kernel are unchanged.
\<close>

theorem updateKeys_rejected_keeps_new_key:
  "updateKeys E ord (Some \<lparr>val = v2, tag = 2\<rparr>) (Some \<lparr>val = v3, tag = 3\<rparr>) None
      \<lparr>keys = [\<lparr>val = v1, tag = 1\<rparr>], secMap = m, bindAddress = l, advertiseAddress = a\<rparr> w
    = Some (Some InvalidParameterError,
        \<lparr>keys = [\<lparr>val = v1, tag = 1\<rparr>, \<lparr>val = v2, tag = 2\<rparr>], secMap = m, bindAddress = l, advertiseAddress = a\<rparr>,
        w)"
  by (simp add: updateKeys_def tagMatches_def)

text \<open>
  Claim C10 does not hold of the code. Pruning the key at index 0 with no primary
  argument passes the checks (\<open>priIdx = -1\<close>, \<open>delIdx = 0\<close>); the prune step then
  replaces \<open>delIdx\<close> by \<open>priIdx\<close>, and the slice expression with the bound \<open>-1\<close>
  panics: in \<open>updateKeys\<close> when the map is empty, in \<open>updateNodeKey\<close> as soon as
  there is a peer.
\<close>

theorem updateKeys_prune_primary_panics:
  "updateKeys E [] None None (Some \<lparr>val = v1, tag = 1\<rparr>)
      \<lparr>keys = [\<lparr>val = v1, tag = 1\<rparr>, \<lparr>val = v2, tag = 2\<rparr>], secMap = Map.empty, bindAddress = l, advertiseAddress = a\<rparr> w
    = None
   \<and> updateKeys E [r] None None (Some \<lparr>val = v1, tag = 1\<rparr>)
      \<lparr>keys = [\<lparr>val = v1, tag = 1\<rparr>, \<lparr>val = v2, tag = 2\<rparr>],
       secMap = [r \<mapsto> \<lparr>spi = [deriveSpi a r \<lparr>val = v1, tag = 1\<rparr>, deriveSpi a r \<lparr>val = v2, tag = 2\<rparr>], count = 1\<rparr>],
       bindAddress = l, advertiseAddress = a\<rparr> w
    = None"
proof -
  let ?ks = "[\<lparr>val = v1, tag = 1\<rparr>, \<lparr>val = v2, tag = 2\<rparr>]"
  let ?sp = "[deriveSpi a r \<lparr>val = v1, tag = 1\<rparr>, deriveSpi a r \<lparr>val = v2, tag = 2\<rparr>]"
  have "map_option fst (updateNodeKey E l a r ?sp ?ks (-1) (-1) 0 w) = None"
    by (simp add: updateNodeKey_fst addNew_def swapPrimary_def prune_def deleteAt_def elemAt_def)
  then have n: "updateNodeKey E l a r ?sp ?ks (-1) (-1) 0 w = None"
    by simp
  have "updateKeys E [] None None (Some \<lparr>val = v1, tag = 1\<rparr>)
      \<lparr>keys = ?ks, secMap = Map.empty, bindAddress = l, advertiseAddress = a\<rparr> w = None"
    by (simp add: updateKeys_def tagMatches_def prune_def deleteAt_def swapFirst_def)
  moreover have "updateKeys E [r] None None (Some \<lparr>val = v1, tag = 1\<rparr>)
      \<lparr>keys = ?ks, secMap = [r \<mapsto> \<lparr>spi = ?sp, count = 1\<rparr>], bindAddress = l, advertiseAddress = a\<rparr> w = None"
    using n by (simp add: updateKeys_def tagMatches_def)
  ultimately show ?thesis by simp
qed

subsection \<open>Key rotation: adding and promoting a key\<close>











subsection \<open>Setup: the netlink calls issued\<close>

lemma programmed_append:
  assumes "programmed add obs cs" and "programmed add obs' cs'"
  shows "programmed add (obs @ obs') (cs @ cs')"
  using assms
proof (induction add obs cs rule: programmed.induct)
  case (1 add cs)
  then show ?case by simp
next
  case (2 add ob obs)
  then show ?case by simp
next
  case (3 add ob obs c ans cs)
  then show ?case
    by (cases cs) (auto split: if_splits)
qed

lemma programState_trace:
  "\<exists>cs. issued (snd (programState nl add sa le w)) = issued w @ cs \<and> programmed add [SA sa] cs"
proof (cases "nl (XfrmStateGet sa) (kern w)")
  case (Pair err k')
  show ?thesis
  proof (cases "nl ((if add then XfrmStateAdd else XfrmStateDel) sa) k'")
    case p2: (Pair err2 k2)
    show ?thesis
      using Pair p2
      by (cases err; cases add)
         (auto simp: programState_def saExists_def nlCall_def checkOf_def changeOf_def
                     attempted_def notFound_def)
  qed
qed

lemma programSP_trace:
  "\<exists>w' cs. programSP E (Some f) rSA add w = Some (None, w')
     \<and> issued w' = issued w @ cs
     \<and> programmed add [SP (forwardPolicy (vxlanUDPPort E) f)] cs"
proof (cases "handle E (XfrmPolicyGet (forwardPolicy (vxlanUDPPort E) f)) (kern w)")
  case (Pair err k')
  show ?thesis
  proof (cases "handle E ((if add then XfrmPolicyAdd else XfrmPolicyDel) (forwardPolicy (vxlanUDPPort E) f)) k'")
    case p2: (Pair err2 k2)
    show ?thesis
      using Pair p2
      by (cases err; cases add)
         (auto simp: programSP_def spExists_def nlCall_def checkOf_def changeOf_def
                     attempted_def notFound_def Let_def)
  qed
qed

lemma programSA_trace:
  assumes "withAead add k (reverseState l r s) = Some rs"
    and "withAead add k (forwardState l r s) = Some fs"
  shows "\<exists>err w' cs. programSA nl l r s k dir add w =
           Some ((if 0 < dir AND forward then Some fs else None,
                  if 0 < dir AND reverse then Some rs else None, err), w')
     \<and> issued w' = issued w @ cs
     \<and> programmed add ((if 0 < dir AND reverse then [SA rs] else [])
                        @ (if 0 < dir AND forward then [SA fs] else [])) cs"
proof -
  define w1 where "w1 = (if 0 < dir AND reverse then snd (programState nl add rs None w) else w)"
  define e1 where "e1 = (if 0 < dir AND reverse then fst (programState nl add rs None w) else None)"
  define w2 where "w2 = (if 0 < dir AND forward then snd (programState nl add fs e1 w1) else w1)"
  define e2 where "e2 = (if 0 < dir AND forward then fst (programState nl add fs e1 w1) else e1)"
  have run: "programSA nl l r s k dir add w =
           Some ((if 0 < dir AND forward then Some fs else None,
                  if 0 < dir AND reverse then Some rs else None, e2), w2)"
    using assms by (simp add: programSA_def split_def w1_def e1_def w2_def e2_def)
  have "\<exists>cs1. issued w1 = issued w @ cs1
      \<and> programmed add (if 0 < dir AND reverse then [SA rs] else []) cs1"
    using programState_trace [of nl add rs None w] by (cases "0 < dir AND reverse") (simp_all add: w1_def)
  then obtain cs1 where c1: "issued w1 = issued w @ cs1"
      "programmed add (if 0 < dir AND reverse then [SA rs] else []) cs1"
    by blast
  have "\<exists>cs2. issued w2 = issued w1 @ cs2
      \<and> programmed add (if 0 < dir AND forward then [SA fs] else []) cs2"
    using programState_trace [of nl add fs e1 w1] by (cases "0 < dir AND forward") (simp_all add: w2_def)
  then obtain cs2 where c2: "issued w2 = issued w1 @ cs2"
      "programmed add (if 0 < dir AND forward then [SA fs] else []) cs2"
    by blast
  have "issued w2 = issued w @ (cs1 @ cs2)"
    using c1(1) c2(1) by simp
  moreover have "programmed add ((if 0 < dir AND reverse then [SA rs] else [])
                        @ (if 0 < dir AND forward then [SA fs] else [])) (cs1 @ cs2)"
    using c1(2) c2(2) by (rule programmed_append)
  ultimately show ?thesis
    using run by blast
qed

lemma withAead_key:
  "withAead True (Some k) (reverseState l r (deriveSpi a r k)) = Some (keyReverseSA l a r k)"
  "withAead True (Some k) (forwardState l r (deriveSpi a r k)) = Some (keyForwardSA l a r k)"
  by (simp_all add: withAead_def buildAeadAlgo_def keyReverseSA_def keyForwardSA_def
        reverseState_def forwardState_def)

lemma setupKey_trace:
  "\<exists>w' cs. setupKey E l a r i k w = Some (deriveSpi a r k, w')
     \<and> issued w' = issued w @ cs
     \<and> programmed True
          (if i = 0
           then [SA (keyReverseSA l a r k), SA (keyForwardSA l a r k),
                 SP (forwardPolicy (vxlanUDPPort E) (keyForwardSA l a r k))]
           else [SA (keyReverseSA l a r k)]) cs"
proof (cases "i = 0")
  case True
  obtain err w1 cs1 where p: "programSA (handle E) l r (deriveSpi a r k) (Some k) bidir True w =
           Some ((Some (keyForwardSA l a r k), Some (keyReverseSA l a r k), err), w1)"
      and c1: "issued w1 = issued w @ cs1"
      and g1: "programmed True ([SA (keyReverseSA l a r k)] @ [SA (keyForwardSA l a r k)]) cs1"
    using programSA_trace [OF withAead_key(1) [where k = k and l = l and r = r and a = a]
        withAead_key(2) [where k = k and l = l and r = r and a = a], where nl = "handle E" and dir = bidir and w = w]
    by (auto simp: dir_bits)
  obtain w2 cs2 where q: "programSP E (Some (keyForwardSA l a r k)) (Some (keyReverseSA l a r k)) True w1
        = Some (None, w2)"
      and c2: "issued w2 = issued w1 @ cs2"
      and g2: "programmed True [SP (forwardPolicy (vxlanUDPPort E) (keyForwardSA l a r k))] cs2"
    using programSP_trace by blast
  have "setupKey E l a r i k w = Some (deriveSpi a r k, w2)"
    using True p q by (simp add: setupKey_def)
  moreover have "issued w2 = issued w @ (cs1 @ cs2)"
    using c1 c2 by simp
  moreover have "programmed True
      (([SA (keyReverseSA l a r k)] @ [SA (keyForwardSA l a r k)])
         @ [SP (forwardPolicy (vxlanUDPPort E) (keyForwardSA l a r k))]) (cs1 @ cs2)"
    using g1 g2 by (rule programmed_append)
  ultimately show ?thesis
    using True by auto
next
  case False
  obtain err w1 cs1 where p: "programSA (handle E) l r (deriveSpi a r k) (Some k) reverse True w =
           Some ((None, Some (keyReverseSA l a r k), err), w1)"
      and c1: "issued w1 = issued w @ cs1"
      and g1: "programmed True [SA (keyReverseSA l a r k)] cs1"
    using programSA_trace [OF withAead_key(1) [where k = k and l = l and r = r and a = a]
        withAead_key(2) [where k = k and l = l and r = r and a = a], where nl = "handle E" and dir = reverse and w = w]
    by (auto simp: dir_bits)
  have "setupKey E l a r i k w = Some (deriveSpi a r k, w1)"
    using False p by (simp add: setupKey_def)
  then show ?thesis
    using False c1 g1 by auto
qed

lemma setupKeys_trace:
  "\<exists>w' cs. setupKeys E l a r i ks acc w = Some (acc @ map (deriveSpi a r) ks, w')
     \<and> issued w' = issued w @ cs
     \<and> programmed True
          (if i = 0 then setupPlan (vxlanUDPPort E) l a r ks
           else map (\<lambda>k. SA (keyReverseSA l a r k)) ks) cs"
proof (induction ks arbitrary: i acc w)
  case Nil
  then show ?case by (simp add: setupPlan_def)
next
  case (Cons k ks)
  let ?p1 = "if i = 0
           then [SA (keyReverseSA l a r k), SA (keyForwardSA l a r k),
                 SP (forwardPolicy (vxlanUDPPort E) (keyForwardSA l a r k))]
           else [SA (keyReverseSA l a r k)]"
  let ?p2 = "map (\<lambda>k. SA (keyReverseSA l a r k)) ks"
  obtain w1 cs1 where s1: "setupKey E l a r i k w = Some (deriveSpi a r k, w1)"
      and c1: "issued w1 = issued w @ cs1" and g1: "programmed True ?p1 cs1"
    using setupKey_trace by blast
  obtain w2 cs2 where s2: "setupKeys E l a r (Suc i) ks (acc @ [deriveSpi a r k]) w1
        = Some ((acc @ [deriveSpi a r k]) @ map (deriveSpi a r) ks, w2)"
      and c2: "issued w2 = issued w1 @ cs2" and g2: "programmed True ?p2 cs2"
    using Cons.IH [of "Suc i" "acc @ [deriveSpi a r k]" w1] by auto
  have "setupKeys E l a r i (k # ks) acc w = Some (acc @ map (deriveSpi a r) (k # ks), w2)"
    using s1 s2 by simp
  moreover have "issued w2 = issued w @ (cs1 @ cs2)"
    using c1 c2 by simp
  moreover have "programmed True (?p1 @ ?p2) (cs1 @ cs2)"
    using g1 g2 by (rule programmed_append)
  moreover have "?p1 @ ?p2 = (if i = 0 then setupPlan (vxlanUDPPort E) l a r (k # ks)
           else map (\<lambda>k. SA (keyReverseSA l a r k)) (k # ks))"
    by (simp add: setupPlan_def)
  ultimately show ?case
    by (intro exI [of _ w2] exI [of _ "cs1 @ cs2"]) simp
qed

text \<open>
  \<open>setupEncryption\<close> in terms of the code's own literals: the calls issued are the
  programming of \<open>setupPlan\<close>.
\<close>

lemma setupEncryption_trace:
  "(keys d = [] \<longrightarrow> setupEncryption E r d w = Some (Some ForbiddenError, d, w))
   \<and> (keys d \<noteq> [] \<longrightarrow>
        (\<exists>w' cs. setupEncryption E r d w =
            Some (None,
                  d\<lparr>secMap := (secMap d)(r \<mapsto>
                      \<lparr>spi = map (deriveSpi (advertiseAddress d) r) (keys d),
                       count = count (lookupNode (secMap d) r) + 1\<rparr>)\<rparr>,
                  w')
          \<and> issued w' = issued w @ cs
          \<and> programmed True
               (setupPlan (vxlanUDPPort E) (bindAddress d) (advertiseAddress d) r (keys d)) cs))"
proof (intro conjI impI)
  assume "keys d = []"
  then show "setupEncryption E r d w = Some (Some ForbiddenError, d, w)"
    by (simp add: setupEncryption_def)
next
  assume ne: "keys d \<noteq> []"
  obtain w' cs where s: "setupKeys E (bindAddress d) (advertiseAddress d) r 0 (keys d) [] w
        = Some ([] @ map (deriveSpi (advertiseAddress d) r) (keys d), w')"
      and c: "issued w' = issued w @ cs"
      and g: "programmed True
               (setupPlan (vxlanUDPPort E) (bindAddress d) (advertiseAddress d) r (keys d)) cs"
    using setupKeys_trace [of E "bindAddress d" "advertiseAddress d" r 0 "keys d" "[]" w] by auto
  have "setupEncryption E r d w =
            Some (None,
                  d\<lparr>secMap := (secMap d)(r \<mapsto>
                      \<lparr>spi = map (deriveSpi (advertiseAddress d) r) (keys d),
                       count = count (lookupNode (secMap d) r) + 1\<rparr>)\<rparr>,
                  w')"
    using ne s by (cases "lookupNode (secMap d) r") (simp add: setupEncryption_def Let_def)
  then show "\<exists>w' cs. setupEncryption E r d w =
            Some (None,
                  d\<lparr>secMap := (secMap d)(r \<mapsto>
                      \<lparr>spi = map (deriveSpi (advertiseAddress d) r) (keys d),
                       count = count (lookupNode (secMap d) r) + 1\<rparr>)\<rparr>,
                  w')
          \<and> issued w' = issued w @ cs
          \<and> programmed True
               (setupPlan (vxlanUDPPort E) (bindAddress d) (advertiseAddress d) r (keys d)) cs"
    using c g by blast
qed

text \<open>
  Claim C4. \<open>setupEncryption\<close> returns an error exactly when the Key Store is empty
  (and then touches neither the driver nor the kernel). Otherwise it returns without
  error, for every kernel behaviour, so also when SA and SP operations fail. The
  peer's SPI sequence holds, for every key in Key Store order, that key's pair: the
  32-bit FNV-1a hash of advertise address, big-endian tag, remote address (forward),
  and of remote address, big-endian tag, advertise address (reverse). The netlink
  calls issued are the programming, in order and with nothing else, of
  \<^item> for the key at index 0, both directions: the SA from the remote to the local
    address with the key's reverse SPI, then the SA from the local to the remote
    address with its forward SPI (both ESP, transport mode, the driver's request id,
    an AEAD algorithm holding the key followed by the big-endian SPI);
  \<^item> for the key at index 0 only, the policy: direction out, UDP to the VXLAN port,
    the driver's mark, source and destination the local and the remote address with
    full masks (a 16-byte IPv4-mapped address in its 4-byte form), and one template
    that requires the forward SA of that key;
  \<^item> for every key at an index above 0, the SA from the remote to the local address
    with that key's reverse SPI, and nothing else.
\<close>

theorem setupEncryption_programs:
  "(case keys d of
      [] \<Rightarrow> setupEncryption E r d w = Some (Some ForbiddenError, d, w)
    | k0 # rest \<Rightarrow>
       (let l = bindAddress d;
            a = advertiseAddress d;
            be32 = (\<lambda>x :: 32 word.
                      [ucast (drop_bit 24 x), ucast (drop_bit 16 x), ucast (drop_bit 8 x), ucast x]
                        :: byte list);
            fnv1a = (\<lambda>bs :: byte list.
                      fold (\<lambda>b h. (h XOR ucast b) * 16777619) bs (2166136261 :: 32 word));
            fwdSpi = (\<lambda>k. uint (fnv1a (a @ be32 (tag k) @ r)));
            revSpi = (\<lambda>k. uint (fnv1a (r @ be32 (tag k) @ a)));
            aead = (\<lambda>k s. Some \<lparr>algoName = ''rfc4106(gcm(aes))'',
                                  algoKey = val k @ be32 (word_of_int s), algoICVLen = 64\<rparr>);
            inSA = (\<lambda>k. \<lparr>saSrc = r, saDst = l, saProto = XFRM_PROTO_ESP, saSpi = revSpi k,
                          saMode = XFRM_MODE_TRANSPORT, saReqid = 0xD0C4E3,
                          saAead = aead k (revSpi k)\<rparr>);
            outSA = (\<lambda>k. \<lparr>saSrc = l, saDst = r, saProto = XFRM_PROTO_ESP, saSpi = fwdSpi k,
                           saMode = XFRM_MODE_TRANSPORT, saReqid = 0xD0C4E3,
                           saAead = aead k (fwdSpi k)\<rparr>);
            shortest = (\<lambda>x :: ip.
                      if length x = 4 then x
                      else if length x = 16 \<and> take 10 x = replicate 10 0
                              \<and> x ! 10 = 0xff \<and> x ! 11 = 0xff
                      then drop 12 x else x);
            ones = (\<lambda>x :: ip.
                      if length x = 4 \<or> length x = 16 then replicate (length x) 0xff else []
                        :: byte list);
            outSP = (\<lambda>k. \<lparr>spSrc = \<lparr>netIP = shortest l, netMask = ones (shortest l)\<rparr>,
                           spDst = \<lparr>netIP = shortest r, netMask = ones (shortest l)\<rparr>,
                           spDir = XFRM_DIR_OUT, spProto = 17,
                           spDstPort = uint (vxlanUDPPort E),
                           spMark = \<lparr>markValue = 0xD0C4E3, markMask = 0xffffffff\<rparr>,
                           spTmpls = [\<lparr>tmplSrc = l, tmplDst = r, tmplProto = XFRM_PROTO_ESP,
                                       tmplMode = XFRM_MODE_TRANSPORT, tmplSpi = fwdSpi k,
                                       tmplReqid = 0xD0C4E3\<rparr>]\<rparr>)
        in \<exists>w' cs.
             setupEncryption E r d w =
               Some (None,
                     d\<lparr>secMap := (secMap d)(r \<mapsto>
                         \<lparr>spi = map (\<lambda>k. \<lparr>forward_spi = fwdSpi k, reverse_spi = revSpi k\<rparr>) (k0 # rest),
                          count = (case secMap d r of None \<Rightarrow> 0 | Some n \<Rightarrow> count n) + 1\<rparr>)\<rparr>,
                     w')
           \<and> issued w' = issued w @ cs
           \<and> programmed True
                ([SA (inSA k0), SA (outSA k0), SP (outSP k0)] @ map (\<lambda>k. SA (inSA k)) rest) cs))"
proof (cases "keys d")
  case Nil
  then show ?thesis
    using setupEncryption_trace [of d E r w] by simp
next
  case (Cons k0 rest)
  then have ne: "keys d \<noteq> []" by simp
  obtain w' cs where run: "setupEncryption E r d w =
            Some (None,
                  d\<lparr>secMap := (secMap d)(r \<mapsto>
                      \<lparr>spi = map (deriveSpi (advertiseAddress d) r) (keys d),
                       count = count (lookupNode (secMap d) r) + 1\<rparr>)\<rparr>,
                  w')"
      and iss: "issued w' = issued w @ cs"
      and prog: "programmed True
               (setupPlan (vxlanUDPPort E) (bindAddress d) (advertiseAddress d) r (keys d)) cs"
    using setupEncryption_trace [of d E r w] ne by blast
  have shortest: "\<And>x. getMinimalIP x =
      (if length x = 4 then x
       else if length x = 16 \<and> take 10 x = replicate 10 0 \<and> x ! 10 = 0xff \<and> x ! 11 = 0xff
       then drop 12 x else x)"
    by (simp add: getMinimalIP_def to4_def)
  have cnt: "count (lookupNode (secMap d) r) = (case secMap d r of None \<Rightarrow> 0 | Some n \<Rightarrow> count n)"
    by (cases "secMap d r") (simp_all add: lookupNode_def zeroNode_def)
  show ?thesis
    using run iss prog
    by (simp add: Cons Let_def setupPlan_def keyReverseSA_def keyForwardSA_def reverseState_def
          forwardState_def forwardPolicy_def deriveSpi_def [abs_def] buildSPI_def fnv32a_def
          putUint32_def buildAeadAlgo_def mark_def spMark_def shortest fullMask_def cnt)
qed

theorem setupEncryption_programs_witness:
  "setupEncryption refusingKernel peerAddr
     \<lparr>keys = [], secMap = Map.empty, bindAddress = localAddr, advertiseAddress = localAddr\<rparr> freshNetlink
     = Some (Some ForbiddenError,
             \<lparr>keys = [], secMap = Map.empty, bindAddress = localAddr, advertiseAddress = localAddr\<rparr>,
             freshNetlink)
   \<and> (\<exists>w' cs.
        setupEncryption refusingKernel peerAddr
          \<lparr>keys = [keyA, keyB], secMap = Map.empty, bindAddress = localAddr, advertiseAddress = localAddr\<rparr>
          freshNetlink
        = Some (None,
            \<lparr>keys = [keyA, keyB],
             secMap = [peerAddr \<mapsto>
               \<lparr>spi = [\<lparr>forward_spi = 660394399, reverse_spi = 61635259\<rparr>,
                       \<lparr>forward_spi = 1959268542, reverse_spi = 3091283650\<rparr>],
                count = 1\<rparr>],
             bindAddress = localAddr, advertiseAddress = localAddr\<rparr>,
            w')
      \<and> issued w' = cs
      \<and> programmed True
           [SA \<lparr>saSrc = peerAddr, saDst = localAddr, saProto = XFRM_PROTO_ESP, saSpi = 61635259,
                saMode = XFRM_MODE_TRANSPORT, saReqid = 0xD0C4E3,
                saAead = Some \<lparr>algoName = ''rfc4106(gcm(aes))'',
                                 algoKey = val keyA @ [3, 172, 122, 187], algoICVLen = 64\<rparr>\<rparr>,
            SA \<lparr>saSrc = localAddr, saDst = peerAddr, saProto = XFRM_PROTO_ESP, saSpi = 660394399,
                saMode = XFRM_MODE_TRANSPORT, saReqid = 0xD0C4E3,
                saAead = Some \<lparr>algoName = ''rfc4106(gcm(aes))'',
                                 algoKey = val keyA @ [39, 92, 209, 159], algoICVLen = 64\<rparr>\<rparr>,
            SP \<lparr>spSrc = \<lparr>netIP = localAddr, netMask = [255, 255, 255, 255]\<rparr>,
                spDst = \<lparr>netIP = peerAddr, netMask = [255, 255, 255, 255]\<rparr>,
                spDir = XFRM_DIR_OUT, spProto = 17, spDstPort = 4789,
                spMark = \<lparr>markValue = 0xD0C4E3, markMask = 0xffffffff\<rparr>,
                spTmpls = [\<lparr>tmplSrc = localAddr, tmplDst = peerAddr, tmplProto = XFRM_PROTO_ESP,
                            tmplMode = XFRM_MODE_TRANSPORT, tmplSpi = 660394399,
                            tmplReqid = 0xD0C4E3\<rparr>]\<rparr>,
            SA \<lparr>saSrc = peerAddr, saDst = localAddr, saProto = XFRM_PROTO_ESP, saSpi = 3091283650,
                saMode = XFRM_MODE_TRANSPORT, saReqid = 0xD0C4E3,
                saAead = Some \<lparr>algoName = ''rfc4106(gcm(aes))'',
                                 algoKey = val keyB @ [184, 65, 62, 194], algoICVLen = 64\<rparr>\<rparr>] cs)"
proof -
  let ?d0 = "\<lparr>keys = [], secMap = Map.empty, bindAddress = localAddr, advertiseAddress = localAddr\<rparr>"
  let ?d2 = "\<lparr>keys = [keyA, keyB], secMap = Map.empty, bindAddress = localAddr, advertiseAddress = localAddr\<rparr>"
  have a: "setupEncryption refusingKernel peerAddr ?d0 freshNetlink = Some (Some ForbiddenError, ?d0, freshNetlink)"
    using setupEncryption_programs [where d = ?d0 and E = refusingKernel and r = peerAddr and w = freshNetlink] by simp
  have bytes: "(940 :: byte) = 172" "(240762 :: byte) = 122" "(61635259 :: byte) = 187"
    "(10076 :: byte) = 92" "(2579665 :: byte) = 209" "(660394399 :: byte) = 159"
    "(47169 :: byte) = 65" "(12075326 :: byte) = 62" "(3091283650 :: byte) = 194"
    by simp_all
  show ?thesis
    using a setupEncryption_programs [where d = ?d2 and E = refusingKernel and r = peerAddr and w = freshNetlink]
    by (simp add: Let_def bytes)
qed

subsection \<open>Kernel failures and the result of a call\<close>

text \<open>
  Claim C8 does not hold as stated. With a kernel that refuses every call, promoting
  the second key issues the in-place policy update, which fails like every other
  call, and \<open>updateKeys\<close> still returns no error.
\<close>

theorem pivot_update_failure_not_returned:
  "updateKeys refusingKernel [peerAddr]
      None (Some keyB) None
      \<lparr>keys = [keyA, keyB],
       secMap = [peerAddr \<mapsto> \<lparr>spi = [deriveSpi localAddr peerAddr keyA,
                                  deriveSpi localAddr peerAddr keyB], count = 1\<rparr>],
       bindAddress = localAddr, advertiseAddress = localAddr\<rparr>
      freshNetlink
   = Some (None,
       \<lparr>keys = [keyB, keyA],
        secMap = [peerAddr \<mapsto> \<lparr>spi = [deriveSpi localAddr peerAddr keyB,
                                   deriveSpi localAddr peerAddr keyA], count = 1\<rparr>],
        bindAddress = localAddr, advertiseAddress = localAddr\<rparr>,
       \<lparr>kern = (),
        issued =
          [(XfrmStateGet (keyForwardSA localAddr localAddr peerAddr keyB), Some EOTHER),
           (XfrmStateAdd (keyForwardSA localAddr localAddr peerAddr keyB), Some EOTHER),
           (XfrmPolicyUpdate (forwardPolicy 4789 (keyForwardSA localAddr localAddr peerAddr keyB)),
            Some EOTHER),
           (XfrmStateGet (forwardState localAddr peerAddr (deriveSpi localAddr peerAddr keyA)), Some EOTHER),
           (XfrmStateDel (forwardState localAddr peerAddr (deriveSpi localAddr peerAddr keyA)), Some EOTHER)]\<rparr>)"
  by (simp add: updateKeys_def tagMatches_def updateNodeKey_def addNew_def delReverse_def
        addReverse_def pivot_def elemAt_def programSA_def withAead_def buildAeadAlgo_def
        programState_def saExists_def nlCall_def swapPrimary_def swapFirst_def prune_def
        dir_bits keyForwardSA_def forwardState_def Let_def)

text \<open>
  Claim C8, amended. No kernel failure is returned to the caller, the failure of the
  in-place policy update of the pivot included (\<open>updateNodeKey\<close> logs it and has no
  error result): the error and the driver that \<open>updateKeys\<close>, \<open>setupEncryption\<close> and
  \<open>removeEncryption\<close> return, and whether they return at all, are the same for any two
  kernels, whatever each answers to the SA and SP calls.
\<close>

theorem kernel_failures_never_returned:
  "map_option (\<lambda>(e, d', w'). (e, d')) (updateKeys E ord newKey primary pruneKey d w)
     = map_option (\<lambda>(e, d', w'). (e, d')) (updateKeys E' ord newKey primary pruneKey d v)
   \<and> map_option (\<lambda>(e, d', w'). (e, d')) (setupEncryption E r d w)
     = map_option (\<lambda>(e, d', w'). (e, d')) (setupEncryption E' r d v)
   \<and> map_option (\<lambda>(e, d', w'). (e, d')) (removeEncryption E r d w)
     = map_option (\<lambda>(e, d', w'). (e, d')) (removeEncryption E' r d v)"
proof (intro conjI)
  define d1 where "d1 = (case newKey of None \<Rightarrow> d | Some k \<Rightarrow> d\<lparr>keys := keys d @ [k]\<rparr>)"
  define n where "n = (case newKey of None \<Rightarrow> -1 | Some k \<Rightarrow> int (length (keys d)))"
  obtain p q where pq: "keyIndices primary pruneKey 0 (keys d1) (-1, -1) = (p, q)"
    by (cases "keyIndices primary pruneKey 0 (keys d1) (-1, -1)")
  note u = updateKeys_unfold [OF d1_def n_def pq]
  have same: "map_option fst (updateNodes E (bindAddress d) (advertiseAddress d) (keys d1) n p q ord (secMap d) w)
      = map_option fst (updateNodes E' (bindAddress d) (advertiseAddress d) (keys d1) n p q ord (secMap d) v)"
    by (rule updateNodes_kernel_free)
  show "map_option (\<lambda>(e, d', w'). (e, d')) (updateKeys E ord newKey primary pruneKey d w)
     = map_option (\<lambda>(e, d', w'). (e, d')) (updateKeys E' ord newKey primary pruneKey d v)"
  proof (cases "updateNodes E (bindAddress d) (advertiseAddress d) (keys d1) n p q ord (secMap d) w")
    case None
    then have "updateNodes E' (bindAddress d) (advertiseAddress d) (keys d1) n p q ord (secMap d) v = None"
      using same by simp
    then show ?thesis
      using None by (simp add: u)
  next
    case (Some res)
    obtain m w1 where r1: "updateNodes E (bindAddress d) (advertiseAddress d) (keys d1) n p q ord (secMap d) w
        = Some (m, w1)"
      using Some by (cases res) simp
    obtain v1 where r2: "updateNodes E' (bindAddress d) (advertiseAddress d) (keys d1) n p q ord (secMap d) v
        = Some (m, v1)"
      using same r1
      by (cases "updateNodes E' (bindAddress d) (advertiseAddress d) (keys d1) n p q ord (secMap d) v") auto
    show ?thesis
      using r1 r2
      by (cases "if p \<noteq> -1 then swapFirst (keys d1) p else Some (keys d1)";
          cases "prune (the (if p \<noteq> -1 then swapFirst (keys d1) p else Some (keys d1))) p q")
         (simp_all add: u)
  qed
next
  show "map_option (\<lambda>(e, d', w'). (e, d')) (setupEncryption E r d w)
     = map_option (\<lambda>(e, d', w'). (e, d')) (setupEncryption E' r d v)"
  proof (cases "keys d = []")
    case True
    then show ?thesis by (simp add: setupEncryption_no_keys)
  next
    case False
    then show ?thesis
      using setupEncryption_returns [OF False, of E r w] setupEncryption_returns [OF False, of E' r v]
      by auto
  qed
next
  show "map_option (\<lambda>(e, d', w'). (e, d')) (removeEncryption E r d w)
     = map_option (\<lambda>(e, d', w'). (e, d')) (removeEncryption E' r d v)"
  proof (cases "count (lookupNode (secMap d) r) = 1")
    case True
    then show ?thesis
      using removeEncryption_last [OF True, of E w] removeEncryption_last [OF True, of E' v]
      by auto
  next
    case False
    then show ?thesis
      by (simp add: removeEncryption_other)
  qed
qed

end
